theory Spec2Isabelle
  imports Main "HOL-Library.Word" "HOL-Library.Char_ord" "HOL-Library.List_Lexorder"
begin

section \<open>The S3-backed freezer of core/rawdb/freezer_remote_s3.go\<close>

text \<open>
  A shallow embedding of \<^verbatim>\<open>freezerRemoteS3\<close>. The Go struct fields that carry the logic
  (\<^verbatim>\<open>frozen\<close>, \<^verbatim>\<open>objectGroupSize\<close>, \<^verbatim>\<open>retrieved\<close>, \<^verbatim>\<open>cache\<close>) form a record; the S3
  bucket is a second record that every remote call takes and returns. Go's \<^verbatim>\<open>uint64\<close>
  is \<^typ>\<open>64 word\<close>, so subtraction wraps as it does in Go. Errors and run-time panics
  are values of the type \<open>error\<close>. Calls run one after the other: the mutex and the
  atomic loads and stores of the counter are plain reads and writes here, and logging
  and metrics are left out.
\<close>

subsection \<open>Values\<close>

type_synonym u64 = "64 word"
type_synonym bytes = "8 word list"

text \<open>
  The \<^verbatim>\<open>kind\<close> argument is a string that \<^verbatim>\<open>RLPBytesForKind\<close> compares with the five
  table-name constants (declared in another file of the package); a string equal to none
  of them is \<open>unknownKind\<close>.
\<close>

datatype kind =
    freezerHashTable
  | freezerHeaderTable
  | freezerBodiesTable
  | freezerReceiptTable
  | freezerDifficultyTable
  | unknownKind string

datatype error =
    errOutOfBounds
  | errNotSupported
  | errRLP                 \<comment> \<open>an error of \<^verbatim>\<open>rlp.DecodeBytes\<close>\<close>
  | errJSON                \<comment> \<open>an error of \<^verbatim>\<open>json.Unmarshal\<close>\<close>
  | errSyntax              \<comment> \<open>\<^verbatim>\<open>strconv.ErrSyntax\<close>\<close>
  | errRange               \<comment> \<open>\<^verbatim>\<open>strconv.ErrRange\<close>\<close>
  | errS3                  \<comment> \<open>any error of the S3 service other than \<^verbatim>\<open>NoSuchKey\<close>\<close>
  | panicUnknownKind       \<comment> \<open>\<^verbatim>\<open>panic("unknown kind: ...")\<close>\<close>
  | panicDivideByZero      \<comment> \<open>integer division by a zero \<^verbatim>\<open>objectGroupSize\<close>\<close>
  | panicIndexOutOfRange   \<comment> \<open>an index expression outside the slice\<close>
  | panicSliceBounds       \<comment> \<open>a slice expression beyond the capacity\<close>

text \<open>
  \<^verbatim>\<open>AncientObjectS3\<close> holds the decoded hash, header, body, receipts and difficulty.
  The decoded Go values are represented by the bytes \<^verbatim>\<open>RLPBytesForKind\<close> produces for
  them, so the record has five byte strings; encoding a decoded value does not fail
  (the code would end the process with \<^verbatim>\<open>log.Crit\<close>).
\<close>

record AncientObjectS3 =
  Hash :: bytes
  Header :: bytes
  Body :: bytes
  Receipts :: bytes
  Difficulty :: bytes

text \<open>
  The field serialisers (\<^verbatim>\<open>common.BytesToHash\<close>, \<^verbatim>\<open>rlp.DecodeBytes\<close>,
  \<^verbatim>\<open>rlp.EncodeToBytes\<close>) are not part of this file and are taken as a parameter:
  \<open>toHash b\<close> is \<^verbatim>\<open>common.BytesToHash(b).Bytes()\<close>, and \<open>rlp k b\<close> is the re-encoding of
  the value \<^verbatim>\<open>rlp.DecodeBytes\<close> reads from \<open>b\<close> for the table \<open>k\<close>, or \<open>None\<close> when
  decoding fails.
\<close>

record codec =
  toHash :: "bytes \<Rightarrow> bytes"
  rlp :: "kind \<Rightarrow> bytes \<Rightarrow> bytes option"

definition NewAncientObjectS3 ::
  "codec \<Rightarrow> bytes \<Rightarrow> bytes \<Rightarrow> bytes \<Rightarrow> bytes \<Rightarrow> bytes \<Rightarrow> error + AncientObjectS3" where
  "NewAncientObjectS3 c hashB headerB bodyB receiptsB difficultyB =
     (case rlp c freezerHeaderTable headerB of
        None \<Rightarrow> Inl errRLP
      | Some header \<Rightarrow>
     (case rlp c freezerBodiesTable bodyB of
        None \<Rightarrow> Inl errRLP
      | Some body \<Rightarrow>
     (case rlp c freezerReceiptTable receiptsB of
        None \<Rightarrow> Inl errRLP
      | Some receipts \<Rightarrow>
     (case rlp c freezerDifficultyTable difficultyB of
        None \<Rightarrow> Inl errRLP
      | Some difficulty \<Rightarrow>
          Inr \<lparr>Hash = toHash c hashB, Header = header, Body = body,
               Receipts = receipts, Difficulty = difficulty\<rparr>))))"

fun RLPBytesForKind :: "AncientObjectS3 \<Rightarrow> kind \<Rightarrow> error + bytes" where
  "RLPBytesForKind ob freezerHashTable = Inr (Hash ob)"
| "RLPBytesForKind ob freezerHeaderTable = Inr (Header ob)"
| "RLPBytesForKind ob freezerBodiesTable = Inr (Body ob)"
| "RLPBytesForKind ob freezerReceiptTable = Inr (Receipts ob)"
| "RLPBytesForKind ob freezerDifficultyTable = Inr (Difficulty ob)"
| "RLPBytesForKind ob (unknownKind s) = Inl panicUnknownKind"

subsection \<open>Decimal numbers and object keys\<close>

text \<open>\<^verbatim>\<open>strconv.FormatUint(n, 10)\<close> and the \<^verbatim>\<open>%09d\<close> of \<^verbatim>\<open>fmt.Sprintf\<close>.\<close>

definition digitChar :: "nat \<Rightarrow> char" where
  "digitChar d = ''0123456789'' ! d"

fun FormatUint :: "nat \<Rightarrow> string" where
  "FormatUint n =
     (if n < 10 then [digitChar n] else FormatUint (n div 10) @ [digitChar (n mod 10)])"

declare FormatUint.simps [simp del]

definition awsKeyBlock :: "u64 \<Rightarrow> string" where
  "awsKeyBlock number =
     (let ds = FormatUint (unat number)
      in ''blocks/'' @ replicate (9 - length ds) (CHR ''0'') @ ds @ ''.json'')"

text \<open>
  \<^verbatim>\<open>strconv.ParseUint(s, 10, 64)\<close>: the empty string and a character that is no digit
  are syntax errors with value 0; a value beyond 64 bits is a range error with the
  largest \<^verbatim>\<open>uint64\<close>.
\<close>

fun parseDigits :: "nat \<Rightarrow> string \<Rightarrow> u64 \<times> error option" where
  "parseDigits n [] = (of_nat n, None)"
| "parseDigits n (c # cs) =
     (let v = (of_char c :: nat) in
      if 48 \<le> v \<and> v \<le> 57 then
        (if 10 * n + (v - 48) < 2 ^ 64 then parseDigits (10 * n + (v - 48)) cs
         else (- 1, Some errRange))
      else (0, Some errSyntax))"

definition ParseUint :: "string \<Rightarrow> u64 \<times> error option" where
  "ParseUint s = (if s = [] then (0, Some errSyntax) else parseDigits 0 s)"

subsection \<open>The bucket\<close>

text \<open>
  The S3 service is outside the repository. A bucket maps keys to objects; an object is
  either \<open>Json xs\<close>, the JSON array that \<^verbatim>\<open>json.Marshal\<close> writes for the records \<open>xs\<close> and
  \<^verbatim>\<open>json.Unmarshal\<close> reads back as \<open>xs\<close>, or \<open>Text t\<close>, any other content, which
  \<^verbatim>\<open>json.Unmarshal\<close> rejects for a slice of records (the index marker is such a text).
  \<open>puts\<close> logs the key of every PUT request in the order they are made. \<open>faults\<close> is the
  schedule of transient failures: each remote call takes the head of the list, and
  \<open>True\<close> makes the call fail; an empty list means the service answers every call.
\<close>

datatype blob = Json "AncientObjectS3 list" | Text string

datatype awserr = NoSuchKey | OtherFailure

record bucket =
  objects :: "string \<rightharpoonup> blob"
  puts :: "string list"
  faults :: "bool list"

definition nextFault :: "bucket \<Rightarrow> bool \<times> bucket" where
  "nextFault s = (case faults s of [] \<Rightarrow> (False, s) | b # bs \<Rightarrow> (b, s\<lparr>faults := bs\<rparr>))"

definition GetObject :: "string \<Rightarrow> bucket \<Rightarrow> (awserr + blob) \<times> bucket" where
  "GetObject key s =
     (case nextFault s of
        (True, s') \<Rightarrow> (Inl OtherFailure, s')
      | (False, s') \<Rightarrow>
          (case objects s' key of
             None \<Rightarrow> (Inl NoSuchKey, s')
           | Some b \<Rightarrow> (Inr b, s')))"

definition Download :: "string \<Rightarrow> bucket \<Rightarrow> (awserr + blob) \<times> bucket" where
  "Download key s = GetObject key s"

definition PutObject :: "string \<Rightarrow> blob \<Rightarrow> bucket \<Rightarrow> error option \<times> bucket" where
  "PutObject key b s =
     (case nextFault (s\<lparr>puts := puts s @ [key]\<rparr>) of
        (True, s') \<Rightarrow> (Some errS3, s')
      | (False, s') \<Rightarrow> (None, s'\<lparr>objects := (objects s')(key \<mapsto> b)\<rparr>))"

text \<open>
  \<^verbatim>\<open>Uploader.UploadWithIterator\<close> uploads every object of the batch in order, goes on
  after a failed upload, and reports an error at the end when any upload failed.
\<close>

fun UploadWithIterator :: "(string \<times> blob) list \<Rightarrow> bool \<Rightarrow> bucket \<Rightarrow> error option \<times> bucket" where
  "UploadWithIterator [] failed s = ((if failed then Some errS3 else None), s)"
| "UploadWithIterator ((key, b) # us) failed s =
     (case PutObject key b s of
        (Some e, s') \<Rightarrow> UploadWithIterator us True s'
      | (None, s') \<Rightarrow> UploadWithIterator us failed s')"

text \<open>
  \<^verbatim>\<open>BatchDelete.Delete\<close> over a \<^verbatim>\<open>DeleteListIterator\<close>: \<^verbatim>\<open>ListObjects\<close> with a
  \<^verbatim>\<open>Marker\<close> lists the keys of the bucket that sort after the marker (in the byte order
  of the keys, page after page), and every listed object is deleted. A failed call
  deletes nothing.
\<close>

definition BatchDelete :: "string \<Rightarrow> bucket \<Rightarrow> error option \<times> bucket" where
  "BatchDelete marker s =
     (case nextFault s of
        (True, s') \<Rightarrow> (Some errS3, s')
      | (False, s') \<Rightarrow>
          (None, s'\<lparr>objects := (\<lambda>k. if marker < k then None else objects s' k)\<rparr>))"

text \<open>\<^verbatim>\<open>json.Unmarshal\<close> into a slice of records.\<close>

fun Unmarshal :: "blob \<Rightarrow> error + AncientObjectS3 list" where
  "Unmarshal (Json xs) = Inr xs"
| "Unmarshal (Text t) = Inl errJSON"

subsection \<open>The freezer\<close>

record freezerRemoteS3 =
  frozen :: u64
  objectGroupSize :: u64
  retrieved :: "u64 \<rightharpoonup> AncientObjectS3"
  cache :: "AncientObjectS3 list"

definition objectKeyForN :: "freezerRemoteS3 \<Rightarrow> u64 \<Rightarrow> error + string" where
  "objectKeyForN f n =
     (if objectGroupSize f = 0 then Inl panicDivideByZero
      else Inr (awsKeyBlock (n div objectGroupSize f)))"

text \<open>
  An index expression \<^verbatim>\<open>xs[i]\<close> panics outside the slice. A slice expression
  \<^verbatim>\<open>xs[:k]\<close> may reach beyond the length up to the capacity of the slice, which the Go
  run time chooses: \<open>spare\<close> stands for the slots of the backing array between the
  length and the capacity.
\<close>

definition index :: "'a list \<Rightarrow> nat \<Rightarrow> error + 'a" where
  "index xs i = (if i < length xs then Inr (xs ! i) else Inl panicIndexOutOfRange)"

definition sliceTo :: "'a list \<Rightarrow> nat \<Rightarrow> 'a list \<Rightarrow> error + 'a list" where
  "sliceTo xs k spare =
     (if k \<le> length xs then Inr (take k xs)
      else if k \<le> length xs + length spare then Inr (xs @ take (k - length xs) spare)
      else Inl panicSliceBounds)"

definition initCache ::
  "u64 \<Rightarrow> freezerRemoteS3 \<Rightarrow> bucket \<Rightarrow> error option \<times> freezerRemoteS3 \<times> bucket" where
  "initCache n f s =
     (case objectKeyForN f n of
        Inl e \<Rightarrow> (Some e, f, s)
      | Inr key \<Rightarrow>
          (case Download key s of
             (Inl NoSuchKey, s') \<Rightarrow> (Some errOutOfBounds, f, s')
           | (Inl OtherFailure, s') \<Rightarrow> (Some errS3, f, s')
           | (Inr b, s') \<Rightarrow>
               (case Unmarshal b of
                  Inl e \<Rightarrow> (Some e, f, s')
                | Inr xs \<Rightarrow> (None, f\<lparr>cache := xs\<rparr>, s'))))"

text \<open>
  \<^verbatim>\<open>Ancients\<close> returns the counter once the constructor has set it; \<open>readIndexMarker\<close> is
  its other branch, taken by the constructor while \<^verbatim>\<open>f.frozen\<close> is still nil. It parses
  the text of the marker object; a JSON array under the marker's key is no decimal
  number, which \<^verbatim>\<open>ParseUint\<close> answers with a syntax error.
\<close>

definition Ancients :: "freezerRemoteS3 \<Rightarrow> u64 \<times> error option" where
  "Ancients f = (frozen f, None)"

definition readIndexMarker :: "bucket \<Rightarrow> (u64 \<times> error option) \<times> bucket" where
  "readIndexMarker s =
     (case GetObject ''index-marker'' s of
        (Inl NoSuchKey, s') \<Rightarrow> ((0, None), s')
      | (Inl OtherFailure, s') \<Rightarrow> ((0, Some errS3), s')
      | (Inr (Text t), s') \<Rightarrow> (ParseUint t, s')
      | (Inr (Json xs), s') \<Rightarrow> ((0, Some errSyntax), s'))"

text \<open>
  The constructor, from the point where the session and the bucket exist; the group
  size is the value read from the environment (32 by default).
\<close>

definition newFreezerRemoteS3 ::
  "u64 \<Rightarrow> bucket \<Rightarrow> error option \<times> freezerRemoteS3 \<times> bucket" where
  "newFreezerRemoteS3 freezerGroups s =
     (case readIndexMarker s of
        ((n, _), s') \<Rightarrow>
          (let f = \<lparr>frozen = n, objectGroupSize = freezerGroups,
                    retrieved = Map.empty, cache = []\<rparr>
           in if 0 < n then initCache n f s' else (None, f, s')))"

text \<open>The loop of \<^verbatim>\<open>Ancient\<close> that fills \<^verbatim>\<open>f.retrieved\<close> from a fetched group.\<close>

fun retrieve :: "u64 \<Rightarrow> nat \<Rightarrow> AncientObjectS3 list \<Rightarrow> (u64 \<rightharpoonup> AncientObjectS3) \<Rightarrow> (u64 \<rightharpoonup> AncientObjectS3)" where
  "retrieve start i [] m = m"
| "retrieve start i (v # vs) m = retrieve start (Suc i) vs (m(start + of_nat i \<mapsto> v))"

text \<open>
  A Go result \<^verbatim>\<open>([]byte, error)\<close>: \<open>Inl e\<close> is \<^verbatim>\<open>(nil, e)\<close>, \<open>Inr None\<close> is
  \<^verbatim>\<open>(nil, nil)\<close> and \<open>Inr (Some b)\<close> is \<^verbatim>\<open>(b, nil)\<close>.
\<close>

definition bytesFor :: "AncientObjectS3 \<Rightarrow> kind \<Rightarrow> error + bytes option" where
  "bytesFor ob kind =
     (case RLPBytesForKind ob kind of Inl e \<Rightarrow> Inl e | Inr b \<Rightarrow> Inr (Some b))"

definition Ancient ::
  "kind \<Rightarrow> u64 \<Rightarrow> freezerRemoteS3 \<Rightarrow> bucket \<Rightarrow> (error + bytes option) \<times> freezerRemoteS3 \<times> bucket" where
  "Ancient kind number f s =
     (if frozen f \<le> number then (Inr None, f, s)
      else
        (let backlogLen = (of_nat (length (cache f)) :: u64);
             remoteHeight = frozen f - backlogLen
         in if remoteHeight \<le> number then
              (case index (cache f) (unat (number - remoteHeight)) of
                 Inl e \<Rightarrow> (Inl e, f, s)
               | Inr ob \<Rightarrow> (bytesFor ob kind, f, s))
            else
              (case retrieved f number of
                 Some v \<Rightarrow> (bytesFor v kind, f, s)
               | None \<Rightarrow>
                   (case objectKeyForN f number of
                      Inl e \<Rightarrow> (Inl e, f, s)
                    | Inr key \<Rightarrow>
                        (case Download key s of
                           (Inl NoSuchKey, s') \<Rightarrow> (Inl errOutOfBounds, f, s')
                         | (Inl OtherFailure, s') \<Rightarrow> (Inl errS3, f, s')
                         | (Inr b, s') \<Rightarrow>
                             (case Unmarshal b of
                                Inl e \<Rightarrow> (Inl e, f, s')
                              | Inr target \<Rightarrow>
                                  (let start = number - (number mod objectGroupSize f);
                                       f' = f\<lparr>retrieved := retrieve start 0 target Map.empty\<rparr>;
                                       i = number mod objectGroupSize f
                                   in if i > of_nat (length target) - 1
                                      then (Inl errOutOfBounds, f', s')
                                      else
                                        (case index target (unat i) of
                                           Inl e \<Rightarrow> (Inl e, f', s')
                                         | Inr ob \<Rightarrow> (bytesFor ob kind, f', s')))))))))"

definition HasAncient ::
  "kind \<Rightarrow> u64 \<Rightarrow> freezerRemoteS3 \<Rightarrow> bucket \<Rightarrow> (bool \<times> error option) \<times> freezerRemoteS3 \<times> bucket" where
  "HasAncient kind number f s =
     (case Ancient kind number f s of
        (Inl e, f', s') \<Rightarrow> ((False, Some e), f', s')
      | (Inr v, f', s') \<Rightarrow> ((v \<noteq> None, None), f', s'))"

definition AncientSize :: "kind \<Rightarrow> u64 \<times> error option" where
  "AncientSize kind = (0, Some errNotSupported)"

definition setIndexMarker :: "u64 \<Rightarrow> bucket \<Rightarrow> error option \<times> bucket" where
  "setIndexMarker number s = PutObject ''index-marker'' (Text (FormatUint (unat number))) s"

definition AppendAncient ::
  "codec \<Rightarrow> u64 \<Rightarrow> bytes \<Rightarrow> bytes \<Rightarrow> bytes \<Rightarrow> bytes \<Rightarrow> bytes \<Rightarrow> freezerRemoteS3
     \<Rightarrow> error option \<times> freezerRemoteS3" where
  "AppendAncient c number hash header body receipts td f =
     (case NewAncientObjectS3 c hash header body receipts td of
        Inl e \<Rightarrow> (Some e, f)
      | Inr ob \<Rightarrow> (None, f\<lparr>cache := cache f @ [ob], frozen := frozen f + 1\<rparr>))"

definition TruncateAncients ::
  "u64 \<Rightarrow> AncientObjectS3 list \<Rightarrow> freezerRemoteS3 \<Rightarrow> bucket
     \<Rightarrow> error option \<times> freezerRemoteS3 \<times> bucket" where
  "TruncateAncients items spare f s =
     (let n = frozen f;
          backlogLen = (of_nat (length (cache f)) :: u64)
      in if n - backlogLen \<le> items then
           (case sliceTo (cache f) (unat (items - (n - backlogLen))) spare of
              Inl e \<Rightarrow> (Some e, f, s)
            | Inr c \<Rightarrow> (None, f\<lparr>cache := c, frozen := items\<rparr>, s))
         else
           (case objectKeyForN f (items - 1) of
              Inl e \<Rightarrow> (Some e, f, s)
            | Inr key \<Rightarrow>
                (case Download key s of
                   (Inl NoSuchKey, s1) \<Rightarrow> (Some errOutOfBounds, f, s1)
                 | (Inl OtherFailure, s1) \<Rightarrow> (Some errS3, f, s1)
                 | (Inr b, s1) \<Rightarrow>
                     (case Unmarshal b of
                        Inl e \<Rightarrow> (Some e, f, s1)
                      | Inr xs \<Rightarrow>
                          (case sliceTo xs (unat (items mod objectGroupSize f)) spare of
                             Inl e \<Rightarrow> (Some e, f\<lparr>cache := xs\<rparr>, s1)
                           | Inr c \<Rightarrow>
                               (let f1 = f\<lparr>cache := c\<rparr>
                                in case BatchDelete (awsKeyBlock (items div objectGroupSize f)) s1 of
                                     (Some e, s2) \<Rightarrow> (Some e, f1, s2)
                                   | (None, s2) \<Rightarrow>
                                       (case setIndexMarker items s2 of
                                          (Some e, s3) \<Rightarrow> (Some e, f1, s3)
                                        | (None, s3) \<Rightarrow> (None, f1\<lparr>frozen := items\<rparr>, s3))))))))"

text \<open>
  In \<open>TruncateAncients\<close> the argument \<open>spare\<close> gives the slots beyond the length of the
  slice that is cut: \<^verbatim>\<open>f.cache\<close> when only the buffer is truncated, the slice that
  \<^verbatim>\<open>json.Unmarshal\<close> filled otherwise.
\<close>

text \<open>
  The loop of \<^verbatim>\<open>Sync\<close> over \<^verbatim>\<open>f.cache\<close>: \<open>i\<close> is the index of \<open>v\<close>, \<open>set'\<close> the \<^verbatim>\<open>set\<close>
  being collected and \<open>uploads\<close> the batch built so far. \<^verbatim>\<open>json.Marshal\<close> of a group
  of records gives \<open>Json\<close> of that group.
\<close>

fun collect ::
  "freezerRemoteS3 \<Rightarrow> u64 \<Rightarrow> nat \<Rightarrow> nat \<Rightarrow> AncientObjectS3 list \<Rightarrow> AncientObjectS3 list
     \<Rightarrow> (string \<times> blob) list \<Rightarrow> error + (string \<times> blob) list" where
  "collect f cacheStartN lenCache i [] set' uploads = Inr uploads"
| "collect f cacheStartN lenCache i (v # vs) set' uploads =
     (if (of_nat (length (set' @ [v])) :: u64) = objectGroupSize f \<or> i = lenCache - 1 then
        (case objectKeyForN f (cacheStartN + of_nat i) of
           Inl e \<Rightarrow> Inl e
         | Inr key \<Rightarrow>
             collect f cacheStartN lenCache (Suc i) vs [] (uploads @ [(key, Json (set' @ [v]))]))
      else collect f cacheStartN lenCache (Suc i) vs (set' @ [v]) uploads)"

definition Sync :: "freezerRemoteS3 \<Rightarrow> bucket \<Rightarrow> error option \<times> freezerRemoteS3 \<times> bucket" where
  "Sync f s =
     (let lenBacklog = length (cache f)
      in if lenBacklog = 0 then (None, f, s)
         else
           (let lenCache = length (cache f);
                cacheStartN = frozen f - of_nat lenCache
            in case collect f cacheStartN lenCache 0 (cache f) [] [] of
                 Inl e \<Rightarrow> (Some e, f, s)
               | Inr uploads \<Rightarrow>
                   (case UploadWithIterator uploads False s of
                      (Some e, s1) \<Rightarrow> (Some e, f, s1)
                    | (None, s1) \<Rightarrow>
                        (let rem = (of_nat (length (cache f)) :: u64) mod objectGroupSize f;
                             f1 = f\<lparr>cache := drop (unat ((of_nat (length (cache f)) :: u64) - rem)) (cache f)\<rparr>
                         in case setIndexMarker (frozen f) s1 of
                              (Some e, s2) \<Rightarrow> (Some e, f1, s2)
                            | (None, s2) \<Rightarrow> (None, f1, s2)))))"

definition repair :: "freezerRemoteS3 \<Rightarrow> error option \<times> freezerRemoteS3" where
  "repair f = (None, f)"

subsection \<open>Sample runs\<close>

text \<open>
  Concrete inputs on which the operations are evaluated below: a serialiser that accepts
  every byte string and returns it unchanged, a bucket without objects or scheduled
  faults, the freezer that the constructor builds over that bucket, and freezers with
  six and eight appended blocks (block \<open>x\<close> has the byte \<open>x\<close> in each of its fields) for a
  group size of four.
\<close>

definition plainCodec :: codec where
  "plainCodec = \<lparr>toHash = (\<lambda>b. b), rlp = (\<lambda>k b. Some b)\<rparr>"

definition emptyBucket :: bucket where
  "emptyBucket = \<lparr>objects = Map.empty, puts = [], faults = []\<rparr>"

definition fresh :: "u64 \<Rightarrow> freezerRemoteS3" where
  "fresh g = \<lparr>frozen = 0, objectGroupSize = g, retrieved = Map.empty, cache = []\<rparr>"

definition appendBlock :: "8 word \<Rightarrow> freezerRemoteS3 \<Rightarrow> freezerRemoteS3" where
  "appendBlock x f = snd (AppendAncient plainCodec (frozen f) [x] [x] [x] [x] [x] f)"

definition six :: freezerRemoteS3 where
  "six = fold appendBlock [0, 1, 2, 3, 4, 5] (fresh 4)"

definition eight :: freezerRemoteS3 where
  "eight = fold appendBlock [0, 1, 2, 3, 4, 5, 6, 7] (fresh 4)"

definition sixSynced :: freezerRemoteS3 where
  "sixSynced = fst (snd (Sync six emptyBucket))"

definition sixBucket :: bucket where
  "sixBucket = snd (snd (Sync six emptyBucket))"

definition eightSynced :: freezerRemoteS3 where
  "eightSynced = fst (snd (Sync eight emptyBucket))"

definition eightBucket :: bucket where
  "eightBucket = snd (snd (Sync eight emptyBucket))"

definition eightTruncated :: freezerRemoteS3 where
  "eightTruncated = fst (snd (TruncateAncients 6 [] eightSynced eightBucket))"

definition truncatedBucket :: bucket where
  "truncatedBucket = snd (snd (TruncateAncients 6 [] eightSynced eightBucket))"

section \<open>Properties\<close>

subsection \<open>Evaluation and arithmetic\<close>

lemma newFreezerRemoteS3_emptyBucket:
  "newFreezerRemoteS3 g emptyBucket = (None, fresh g, emptyBucket)"
  by (simp add: newFreezerRemoteS3_def readIndexMarker_def GetObject_def nextFault_def
      emptyBucket_def fresh_def)

lemma pad_step: "replicate (numeral k) c = c # replicate (numeral k - 1) c"
  by (simp add: numeral_eq_Suc)

lemmas run_simps =
  pad_step Sync_def TruncateAncients_def Ancient_def HasAncient_def Ancients_def AppendAncient_def
  NewAncientObjectS3_def objectKeyForN_def awsKeyBlock_def FormatUint.simps digitChar_def
  Download_def GetObject_def PutObject_def nextFault_def BatchDelete_def setIndexMarker_def
  index_def sliceTo_def bytesFor_def Let_def newFreezerRemoteS3_def readIndexMarker_def
  initCache_def ParseUint_def plainCodec_def emptyBucket_def fresh_def appendBlock_def
  six_def eight_def

lemma of_nat_eq_iff_unat:
  "n \<le> unat (g :: u64) \<Longrightarrow> (of_nat n = g) = (n = unat g)"
  using le_unat_uoi by fastforce

lemma word_back: "0 < n \<Longrightarrow> (a :: u64) - of_nat n + of_nat (n - 1) = a - 1"
  by simp

lemma small_mod: "r < unat (g::u64) \<Longrightarrow> (of_nat r :: u64) mod g = of_nat r"
  by (metis le_unat_uoi mod_word_less nless_le word_less_iff_unsigned)

lemma unat_of_len: "len < 2 ^ 64 \<Longrightarrow> unat (of_nat len :: u64) = len"
  by (simp add: unat_of_nat)

lemma unat_trim:
  assumes "len < 2 ^ 64"
  shows "unat ((of_nat len :: u64) - of_nat len mod g) = len - len mod unat g"
proof -
  have "(of_nat len :: u64) mod g \<le> of_nat len"
    by (simp add: word_le_nat_alt unat_mod)
  then have "unat ((of_nat len :: u64) - of_nat len mod g)
      = unat (of_nat len :: u64) - unat ((of_nat len :: u64) mod g)"
    by (rule unat_sub)
  then show ?thesis
    using assms by (simp add: unat_mod unat_of_len)
qed

lemma drop_past: "length xs = a \<Longrightarrow> drop (a + k) (xs @ ys) = drop k ys"
  by simp

lemma collect_single:
  assumes "objectGroupSize f \<noteq> 0"
  shows "vs \<noteq> [] \<Longrightarrow> length objs + length vs < unat (objectGroupSize f) \<Longrightarrow> i + length vs = n \<Longrightarrow>
     collect f st n i vs objs ups =
       Inr (ups @ [(awsKeyBlock ((st + of_nat (n - 1)) div objectGroupSize f), Json (objs @ vs))])"
proof (induction vs arbitrary: i objs)
  case Nil
  then show ?case by simp
next
  case (Cons v vs)
  show ?case
  proof (cases "vs = []")
    case True
    with Cons.prems assms show ?thesis
      by (auto simp: objectKeyForN_def)
  next
    case False
    have "length (objs @ [v]) \<le> unat (objectGroupSize f)"
      and "length (objs @ [v]) \<noteq> unat (objectGroupSize f)"
      using Cons.prems by auto
    then have ne: "(of_nat (length (objs @ [v])) :: u64) \<noteq> objectGroupSize f"
      by (metis of_nat_eq_iff_unat)
    have ni: "i \<noteq> n - 1"
      using Cons.prems False by (cases vs) auto
    have "collect f st n (Suc i) vs (objs @ [v]) ups =
       Inr (ups @ [(awsKeyBlock ((st + of_nat (n - 1)) div objectGroupSize f), Json ((objs @ [v]) @ vs))])"
      using Cons.prems False by (intro Cons.IH) auto
    with ne ni show ?thesis by simp
  qed
qed

lemma collect_last:
  assumes "objectGroupSize f \<noteq> 0"
  shows "vs \<noteq> [] \<Longrightarrow> length objs < unat (objectGroupSize f) \<Longrightarrow> i + length vs = n \<Longrightarrow>
     (length objs + length vs) mod unat (objectGroupSize f) \<noteq> 0 \<Longrightarrow>
     \<exists>ups'. collect f st n i vs objs ups =
       Inr (ups' @ [(awsKeyBlock ((st + of_nat (n - 1)) div objectGroupSize f),
         Json (drop (length objs + length vs - (length objs + length vs) mod unat (objectGroupSize f)) (objs @ vs)))])"
proof (induction vs arbitrary: i objs ups)
  case Nil
  then show ?case by simp
next
  case (Cons v vs)
  let ?g = "unat (objectGroupSize f)"
  show ?case
  proof (cases "vs = []")
    case True
    have "Suc (length objs) < ?g"
      using Cons.prems True by (cases "Suc (length objs) = ?g") auto
    with Cons.prems True assms show ?thesis
      by (auto simp: objectKeyForN_def)
  next
    case False
    have ni: "i \<noteq> n - 1"
      using Cons.prems False by (cases vs) auto
    show ?thesis
    proof (cases "Suc (length objs) = ?g")
      case full: True
      then have "length (objs @ [v]) = unat (objectGroupSize f)" by simp
      then have eq: "(of_nat (length (objs @ [v])) :: u64) = objectGroupSize f"
        by (metis of_nat_eq_iff_unat order_refl)
      have m: "(Suc (length objs) + length vs) mod ?g = length vs mod ?g"
        using full by simp
      have "0 < ?g" using full by simp
      from Cons.IH[of "[]" "Suc i" "ups @ [(awsKeyBlock ((st + of_nat i) div objectGroupSize f), Json (objs @ [v]))]"]
      obtain ups' where u: "collect f st n (Suc i) vs [] (ups @ [(awsKeyBlock ((st + of_nat i) div objectGroupSize f), Json (objs @ [v]))]) =
          Inr (ups' @ [(awsKeyBlock ((st + of_nat (n - 1)) div objectGroupSize f),
            Json (drop (length vs - length vs mod ?g) vs))])"
        using Cons.prems False m \<open>0 < ?g\<close> by auto
      have le: "length vs mod ?g \<le> length vs" by simp
      have L: "length objs + length (v # vs) = ?g + length vs"
        using full by simp
      have "?g + length vs - (?g + length vs) mod ?g = ?g + (length vs - length vs mod ?g)"
        using le by simp
      then have e: "length objs + length (v # vs) - (length objs + length (v # vs)) mod ?g
          = ?g + (length vs - length vs mod ?g)"
        unfolding L .
      have d: "drop (length objs + length (v # vs) - (length objs + length (v # vs)) mod ?g) ((objs @ [v]) @ vs)
          = drop (length vs - length vs mod ?g) vs"
        unfolding e by (rule drop_past) (simp add: full)
      show ?thesis
        using eq u assms d by (auto simp: objectKeyForN_def)
    next
      case part: False
      then have lt: "Suc (length objs) < ?g" using Cons.prems by simp
      then have "length (objs @ [v]) \<le> unat (objectGroupSize f)"
        and "length (objs @ [v]) \<noteq> unat (objectGroupSize f)"
        by auto
      then have ne: "(of_nat (length (objs @ [v])) :: u64) \<noteq> objectGroupSize f"
        by (metis of_nat_eq_iff_unat)
      from Cons.IH[of "objs @ [v]" "Suc i" ups]
      obtain ups' where "collect f st n (Suc i) vs (objs @ [v]) ups =
          Inr (ups' @ [(awsKeyBlock ((st + of_nat (n - 1)) div objectGroupSize f),
            Json (drop (length (objs @ [v]) + length vs - (length (objs @ [v]) + length vs) mod ?g) ((objs @ [v]) @ vs)))])"
        using Cons.prems False lt by auto
      with ne ni show ?thesis by auto
    qed
  qed
qed


lemma PutObject_None:
  "PutObject key b s = (None, s1) \<Longrightarrow> objects s1 = (objects s)(key \<mapsto> b)"
  by (auto simp: PutObject_def nextFault_def split: list.splits bool.splits if_splits)

lemma PutObject_no_fault:
  "faults s = [] \<Longrightarrow>
     PutObject key b s = (None, s\<lparr>puts := puts s @ [key], objects := (objects s)(key \<mapsto> b)\<rparr>)"
  by (simp add: PutObject_def nextFault_def)

lemma Upload_failed: "UploadWithIterator ups True s \<noteq> (None, s1)"
  by (induction ups arbitrary: s) (auto split: prod.splits option.splits)

lemma Upload_last:
  "UploadWithIterator (ups @ [(k, b)]) failed s = (None, s1) \<Longrightarrow> objects s1 k = Some b"
proof (induction ups arbitrary: s failed)
  case Nil
  then show ?case
    by (auto simp: Upload_failed dest: PutObject_None split: prod.splits option.splits if_splits)
next
  case (Cons u ups)
  then show ?case
    by (cases u) (auto simp: Upload_failed split: prod.splits option.splits)
qed

lemma awsKeyBlock_not_marker: "awsKeyBlock n \<noteq> ''index-marker''"
  by (simp add: awsKeyBlock_def Let_def)

subsection \<open>Facts about single operations\<close>

lemma Ancient_not_frozen:
  "frozen f \<le> number \<Longrightarrow> Ancient k number f s = (Inr None, f, s)"
  by (simp add: Ancient_def)

lemma TruncateAncients_frozen:
  "TruncateAncients items spare f s = (None, f', s') \<Longrightarrow> frozen f' = items"
  by (auto simp: TruncateAncients_def Let_def
      split: if_splits sum.splits prod.splits option.splits awserr.splits)

lemma TruncateAncients_error_frozen:
  "TruncateAncients items spare f s = (Some e, f', s') \<Longrightarrow> frozen f' = frozen f"
  by (auto simp: TruncateAncients_def Let_def
      split: if_splits sum.splits prod.splits option.splits awserr.splits)

lemma AppendAncient_number_unused:
  "AppendAncient c number hash header body receipts td f =
   AppendAncient c number' hash header body receipts td f"
  by (simp add: AppendAncient_def)

lemma AppendAncient_ok:
  "AppendAncient c number hash header body receipts td f = (None, f') \<Longrightarrow>
     frozen f' = frozen f + 1 \<and> length (cache f') = Suc (length (cache f))"
  by (auto simp: AppendAncient_def split: sum.splits)

lemma AppendAncient_error:
  "AppendAncient c number hash header body receipts td f = (Some e, f') \<Longrightarrow> f' = f"
  by (auto simp: AppendAncient_def split: sum.splits)

lemma Sync_frozen:
  "Sync f s = (r, f', s') \<Longrightarrow> frozen f' = frozen f \<and> objectGroupSize f' = objectGroupSize f"
  by (auto simp: Sync_def Let_def split: if_splits sum.splits prod.splits option.splits)

text \<open>
  A record of the write buffer is read from the buffer, at its offset from the first
  buffered number, as long as the buffer is not longer than the frozen count.
\<close>

lemma Ancient_from_buffer:
  assumes "number < frozen f"
    and "length (cache f) \<le> unat (frozen f)"
    and "frozen f - of_nat (length (cache f)) \<le> number"
  shows "Ancient k number f s =
     (bytesFor (cache f ! (unat number - (unat (frozen f) - length (cache f)))) k, f, s)"
proof -
  let ?n = "length (cache f)"
  have un: "unat (of_nat ?n :: u64) = ?n"
    using assms(2) by (rule le_unat_uoi)
  then have "(of_nat ?n :: u64) \<le> frozen f"
    using assms(2) by (simp add: word_le_nat_alt)
  then have rh: "unat (frozen f - of_nat ?n) = unat (frozen f) - ?n"
    using un by (simp add: unat_sub)
  have idx: "unat (number - (frozen f - of_nat ?n)) = unat number - (unat (frozen f) - ?n)"
    using assms(3) rh by (simp add: unat_sub)
  have "unat number < unat (frozen f)"
    using assms(1) by (simp add: word_less_nat_alt)
  then have "unat number - (unat (frozen f) - ?n) < ?n"
    using assms(2) assms(3) rh by (simp add: word_le_nat_alt)
  moreover have "\<not> frozen f \<le> number"
    using assms(1) by simp
  ultimately show ?thesis
    using assms(3) idx by (simp add: Ancient_def Let_def index_def)
qed

text \<open>
  The bounds check of a fetched group does its work when the decoded array is not
  empty: an offset at or beyond its length gives \<^verbatim>\<open>errOutOfBounds\<close>.
\<close>

lemma Ancient_short_group:
  assumes "\<not> frozen f \<le> number"
    and "\<not> frozen f - of_nat (length (cache f)) \<le> number"
    and "retrieved f number = None"
    and "objectGroupSize f \<noteq> 0"
    and "Download (awsKeyBlock (number div objectGroupSize f)) s = (Inr (Json target), s')"
    and "target \<noteq> []"
    and "length target < 2 ^ 64"
    and "length target \<le> unat (number mod objectGroupSize f)"
  shows "fst (Ancient k number f s) = Inl errOutOfBounds"
proof -
  have "(of_nat (length target) :: u64) \<noteq> 0"
    using assms(6,7) by (simp add: of_nat_0 unat_of_len word_unat_eq_iff)
  then have "unat ((of_nat (length target) :: u64) - 1) = length target - 1"
    using assms(7) by (simp add: unat_minus_one unat_of_len)
  then have "(of_nat (length target) :: u64) - 1 < number mod objectGroupSize f"
    using assms(6,8) by (cases target) (auto simp: word_less_nat_alt)
  with assms show ?thesis
    by (simp add: Ancient_def Let_def objectKeyForN_def)
qed

text \<open>
  With six blocks and groups of four the last group is partial; the constructor then
  finds it under the key of number 6, loads it into the buffer, and both a buffered and
  a remote record are read back.
\<close>

lemma restart_with_partial_group:
  "(let (r1, f1, s1) = Sync six emptyBucket;
        (r2, f2, s2) = newFreezerRemoteS3 4 s1;
        (a3, f3, s3) = Ancient freezerHashTable 5 f2 s2;
        (a4, f4, s4) = Ancient freezerHashTable 2 f3 s3
    in (r1, r2, frozen f2, map Hash (cache f2), a3, a4))
   = (None, None, 6, [[4], [5]], Inr (Some [5]), Inr (Some [2]))"
  by (simp add: run_simps)

subsection \<open>Reading what was appended\<close>

text \<open>
  C1. For every sequence number below the frozen count and every field kind, \<^verbatim>\<open>Ancient\<close>
  is to return the bytes that \<^verbatim>\<open>AppendAncient\<close> received for that number, whether the
  record is in the write buffer, in the read-through cache or in the bucket. The run
  below breaks this. Eight blocks are appended and synced in groups of four; block 6 is
  read, which leaves group 1 in \<^verbatim>\<open>f.retrieved\<close>; the freezer is truncated to 6; new
  blocks with the bytes 106 and 107 are appended as numbers 6 and 7 and synced. Every
  call succeeds and the frozen count is 8 again, yet \<^verbatim>\<open>Ancient\<close> for number 6 returns
  the byte 6 of the truncated block: \<^verbatim>\<open>TruncateAncients\<close> never clears
  \<^verbatim>\<open>f.retrieved\<close>.
\<close>

theorem Ancient_stale_after_truncate:
  "(let (r1, f1, s1) = Sync eight emptyBucket;
        (a2, f2, s2) = Ancient freezerHashTable 6 f1 s1;
        (r3, f3, s3) = TruncateAncients 6 [] f2 s2;
        (r4, f4) = AppendAncient plainCodec 6 [106] [106] [106] [106] [106] f3;
        (r5, f5) = AppendAncient plainCodec 7 [107] [107] [107] [107] [107] f4;
        (r6, f6, s6) = Sync f5 s3;
        (a7, f7, s7) = Ancient freezerHashTable 6 f6 s6
    in (r1, a2, r3, frozen f3, r4, r5, r6, frozen f6, a7))
   = (None, Inr (Some [6]), None, 6, None, None, None, 8, Inr (Some [6]))"
  by (simp add: run_simps)

subsection \<open>Appending\<close>

text \<open>
  C2. \<^verbatim>\<open>AppendAncient\<close> is to succeed only when the given number equals the frozen
  count, and to return an error and leave buffer and frozen count alone otherwise. The
  code never looks at the number: on the empty freezer, whose frozen count is 0, an
  append with the number 5 returns no error, stores the record and raises the count
  to 1.
\<close>

theorem AppendAncient_accepts_any_number:
  "frozen (fresh 4) = 0 \<and>
   AppendAncient plainCodec 5 [1] [2] [3] [4] [5] (fresh 4) =
     (None, (fresh 4)\<lparr>cache := [\<lparr>Hash = [1], Header = [2], Body = [3], Receipts = [4],
                                    Difficulty = [5]\<rparr>],
                       frozen := 1\<rparr>)"
  by (simp add: run_simps)

subsection \<open>Sync\<close>

text \<open>
  C3, as stated: a second \<^verbatim>\<open>Sync\<close> after a successful one, with no append in between,
  performs no remote write. It fails on a freezer with six blocks and groups of four:
  the first \<^verbatim>\<open>Sync\<close> uploads the groups 0 and 1 and the index marker, and the second
  one, which also succeeds, uploads the partial group 1 and the index marker again.
\<close>

theorem Sync_twice_uploads_again:
  "(let (r1, f1, s1) = Sync six emptyBucket;
        (r2, f2, s2) = Sync f1 s1
    in (r1, r2, puts s1, puts s2))
   = (None, None,
      [''blocks/000000000.json'', ''blocks/000000001.json'', ''index-marker''],
      [''blocks/000000000.json'', ''blocks/000000001.json'', ''index-marker'',
       ''blocks/000000001.json'', ''index-marker''])"
  by (simp add: run_simps)

text \<open>
  C3, amended. After a successful \<^verbatim>\<open>Sync\<close>, and while the service answers every
  call, a second \<^verbatim>\<open>Sync\<close> with no append in between returns success and leaves the
  frozen count, the buffer and every object of the bucket as they are. It makes no
  remote write when the buffer is empty after the first \<^verbatim>\<open>Sync\<close>; otherwise it makes
  two: it uploads the trailing partial group under the key of record
  \<open>frozen - 1\<close> and writes the index marker, both with the values they already have.
\<close>

theorem Sync_twice:
  assumes ok: "Sync f s = (None, f1, s1)"
    and nofault: "faults s1 = []"
    and len: "length (cache f) < 2 ^ 64"
  shows "Sync f1 s1 =
    (None, f1, s1\<lparr>puts := puts s1 @
       (if cache f1 = [] then []
        else [awsKeyBlock ((frozen f1 - 1) div objectGroupSize f1), ''index-marker''])\<rparr>)"
proof (cases "cache f = []")
  case True
  with ok have "f1 = f" "s1 = s" by (auto simp: Sync_def)
  with True show ?thesis by (simp add: Sync_def)
next
  case False
  let ?g = "objectGroupSize f"
  let ?n = "length (cache f)"
  let ?st = "frozen f - of_nat ?n"
  define R where "R = drop (?n - ?n mod unat ?g) (cache f)"
  define k where "k = awsKeyBlock ((frozen f - 1) div ?g)"
  define m where "m = Text (FormatUint (unat (frozen f)))"
  from ok False obtain ups sa where
    c: "collect f ?st ?n 0 (cache f) [] [] = Inr ups"
    and u: "UploadWithIterator ups False s = (None, sa)"
    and mk: "setIndexMarker (frozen f) sa = (None, s1)"
    and f1: "f1 = f\<lparr>cache := drop (unat ((of_nat ?n :: u64) - of_nat ?n mod ?g)) (cache f)\<rparr>"
    by (auto simp: Sync_def Let_def split: sum.splits prod.splits option.splits)
  have g0: "?g \<noteq> 0"
  proof
    assume z: "?g = 0"
    have "collect f st n i vs objs us \<noteq> Inr r" if "vs \<noteq> []" "i + length vs = n" for st n i vs objs us r
      using that
    proof (induction vs arbitrary: i objs us)
      case Nil then show ?case by simp
    next
      case (Cons v vs)
      show ?case
      proof (cases "vs = []")
        case True
        with Cons.prems z show ?thesis by (auto simp: objectKeyForN_def)
      next
        case False
        with Cons z show ?thesis by (auto simp: objectKeyForN_def)
      qed
    qed
    with c False show False by auto
  qed
  have cache1: "cache f1 = R" and fr1: "frozen f1 = frozen f" and gs1: "objectGroupSize f1 = ?g"
    using f1 len by (simp_all add: unat_trim R_def)
  have om: "objects s1 = (objects sa)(''index-marker'' \<mapsto> m)"
    using mk by (auto simp: setIndexMarker_def m_def dest: PutObject_None)
  show ?thesis
  proof (cases "R = []")
    case True
    with cache1 show ?thesis by (simp add: Sync_def)
  next
    case R: False
    then have r0: "?n mod unat ?g \<noteq> 0" by (auto simp: R_def)
    have rlt: "?n mod unat ?g < unat ?g"
      using g0 by (simp add: unat_gt_0)
    have lenR: "length R = ?n mod unat ?g" by (simp add: R_def)
    have "(0 + ?n) mod unat ?g \<noteq> 0" "length ([] :: AncientObjectS3 list) < unat ?g" "0 + ?n = ?n"
      using r0 g0 by (simp_all add: unat_gt_0)
    from collect_last[OF g0 False, of "[]" 0 ?n ?st "[]"] this
    obtain ups' where cl: "collect f ?st ?n 0 (cache f) [] [] =
        Inr (ups' @ [(awsKeyBlock ((?st + of_nat (?n - 1)) div ?g), Json R)])"
      by (auto simp: R_def)
    have wb: "?st + of_nat (?n - 1) = frozen f - 1"
      using False by (intro word_back) simp
    have "ups = ups' @ [(k, Json R)]"
      using c cl[unfolded wb] by (simp add: k_def)
    with u have "objects sa k = Some (Json R)" by (auto dest: Upload_last)
    moreover have "k \<noteq> ''index-marker''" by (simp add: k_def awsKeyBlock_not_marker)
    ultimately have ok1: "objects s1 k = Some (Json R)"
      using om by simp
    have om1: "objects s1 ''index-marker'' = Some m" using om by simp
    have cs: "collect f1 (frozen f1 - of_nat (length R)) (length R) 0 R [] [] =
        Inr ([] @ [(awsKeyBlock ((frozen f1 - of_nat (length R) + of_nat (length R - 1)) div objectGroupSize f1), Json ([] @ R))])"
      using R rlt gs1 g0 lenR by (intro collect_single) simp_all
    have wb2: "frozen f1 - of_nat (length R) + of_nat (length R - 1) = frozen f1 - 1"
      using R by (intro word_back) simp
    have c2: "collect f1 (frozen f1 - of_nat (length R)) (length R) 0 R [] [] = Inr [(k, Json R)]"
      using cs[unfolded wb2] by (simp add: fr1 gs1 k_def)
    have "(of_nat (length R) :: u64) mod ?g = of_nat (length R)"
      using rlt lenR by (simp add: small_mod)
    then have trim: "drop (unat ((of_nat (length R) :: u64) - of_nat (length R) mod ?g)) R = R"
      by simp
    define s2 where "s2 = s1\<lparr>puts := puts s1 @ [k], objects := (objects s1)(k \<mapsto> Json R)\<rparr>"
    have up2: "UploadWithIterator [(k, Json R)] False s1 = (None, s2)"
      using nofault by (simp add: PutObject_no_fault s2_def)
    have mk2: "setIndexMarker (frozen f1) s2 =
        (None, s2\<lparr>puts := puts s2 @ [''index-marker''],
                    objects := (objects s2)(''index-marker'' \<mapsto> m)\<rparr>)"
      using nofault by (simp add: setIndexMarker_def PutObject_no_fault fr1 s2_def m_def)
    have same: "(objects s1)(k \<mapsto> Json R, ''index-marker'' \<mapsto> m) = objects s1"
      using ok1 om1 by (simp add: fun_upd_idem)
    have "Sync f1 s1 = (None, f1\<lparr>cache := R\<rparr>,
        s2\<lparr>puts := puts s2 @ [''index-marker''],
             objects := (objects s2)(''index-marker'' \<mapsto> m)\<rparr>)"
      using R c2 up2 mk2 trim
      by (simp add: Sync_def Let_def cache1 gs1 del: UploadWithIterator.simps)
    moreover have "f1\<lparr>cache := R\<rparr> = f1" using cache1 by simp
    ultimately show ?thesis
      using same R by (simp add: cache1 fr1 gs1 s2_def k_def)
  qed
qed

theorem Sync_twice_witness:
  "Sync six emptyBucket = (None, sixSynced, sixBucket) \<and>
   faults sixBucket = [] \<and>
   length (cache six) < 2 ^ 64 \<and>
   cache sixSynced \<noteq> [] \<and>
   Sync sixSynced sixBucket =
     (None, sixSynced,
      sixBucket\<lparr>puts := puts sixBucket @ [''blocks/000000001.json'', ''index-marker'']\<rparr>)"
proof -
  have "fst (Sync six emptyBucket) = None"
    by (simp add: run_simps)
  then have h1: "Sync six emptyBucket = (None, sixSynced, sixBucket)"
    by (simp add: sixSynced_def sixBucket_def prod_eq_iff)
  have h2: "faults sixBucket = []"
    by (simp add: sixBucket_def run_simps)
  have h3: "length (cache six) < 2 ^ 64"
    by (simp add: run_simps)
  have c: "cache sixSynced \<noteq> []"
    and k: "awsKeyBlock ((frozen sixSynced - 1) div objectGroupSize sixSynced)
      = ''blocks/000000001.json''"
    by (simp_all add: sixSynced_def run_simps)
  from Sync_twice [OF h1 h2 h3] h1 h2 h3 c k
  show ?thesis by simp
qed

text \<open>
  C4. \<^verbatim>\<open>Sync\<close> is to write the index marker and trim the buffer only after every
  upload succeeded, and a \<^verbatim>\<open>Sync\<close> that returns an error is to leave buffer and marker
  unchanged, so that it can be tried again. In the code the buffer is trimmed before
  the marker is written. With eight buffered blocks, two uploads that succeed and a
  marker write that fails, \<^verbatim>\<open>Sync\<close> returns the error with an empty buffer and no
  marker; the second \<^verbatim>\<open>Sync\<close> then finds the buffer empty, returns success and writes
  nothing, so the marker is still missing.
\<close>

theorem Sync_marker_failure_trims_buffer:
  "(let (r1, f1, s1) = Sync eight (emptyBucket\<lparr>faults := [False, False, True]\<rparr>);
        (r2, f2, s2) = Sync f1 s1
    in (r1, length (cache eight), cache f1, objects s1 ''index-marker'',
        r2, objects s2 ''index-marker'', puts s2 = puts s1))
   = (Some errS3, 8, [], None, None, None, True)"
  by (simp add: run_simps)

subsection \<open>Numbers that are not frozen\<close>

text \<open>
  C5, as stated: for a number at or beyond the frozen count \<^verbatim>\<open>Ancient\<close> surfaces a
  distinguishable not-found result and not a successful return of empty data. On the
  empty freezer, \<^verbatim>\<open>Ancient\<close> for number 0 returns \<^verbatim>\<open>nil, nil\<close>: no bytes and no error,
  and \<^verbatim>\<open>HasAncient\<close> returns \<^verbatim>\<open>false, nil\<close>.
\<close>

theorem Ancient_not_frozen_is_nil_nil:
  "frozen (fresh 4) \<le> 0 \<and>
   fst (Ancient freezerHashTable 0 (fresh 4) emptyBucket) = Inr None \<and>
   fst (HasAncient freezerHashTable 0 (fresh 4) emptyBucket) = (False, None)"
  by (simp add: run_simps)

text \<open>
  C5, amended. For every kind, known or not, and every number at or beyond the frozen
  count, \<^verbatim>\<open>Ancient\<close> returns \<^verbatim>\<open>nil, nil\<close> (no bytes, no error) and \<^verbatim>\<open>HasAncient\<close>
  returns \<^verbatim>\<open>false, nil\<close>; neither changes the freezer or calls the bucket.
\<close>

theorem Ancient_beyond_frozen:
  assumes "frozen f \<le> number"
  shows "Ancient k number f s = (Inr None, f, s) \<and>
         HasAncient k number f s = ((False, None), f, s)"
  using assms by (simp add: HasAncient_def Ancient_not_frozen)

theorem Ancient_beyond_frozen_witness:
  "frozen eight \<le> 8 \<and>
   Ancient freezerBodiesTable 8 eight emptyBucket = (Inr None, eight, emptyBucket) \<and>
   HasAncient freezerBodiesTable 8 eight emptyBucket = ((False, None), eight, emptyBucket)"
proof -
  have h: "frozen eight \<le> 8" by (simp add: run_simps)
  from Ancient_beyond_frozen [OF h, of freezerBodiesTable emptyBucket] h
  show ?thesis by simp
qed

subsection \<open>Truncation\<close>

text \<open>
  C6, as stated: after a successful \<^verbatim>\<open>TruncateAncients\<close> to a target not above the
  frozen count, \<^verbatim>\<open>Ancient\<close> returns the not-found outcome for every number at or above
  the target, the outcome that C5 describes as no successful return of empty data.
  With six buffered blocks and a truncation to 5, which succeeds and sets the frozen
  count to 5, \<^verbatim>\<open>Ancient\<close> for number 5 returns \<^verbatim>\<open>nil, nil\<close>: no bytes and no error,
  not \<^verbatim>\<open>errOutOfBounds\<close>; \<^verbatim>\<open>HasAncient\<close> returns \<^verbatim>\<open>false, nil\<close>.
\<close>

theorem TruncateAncients_then_Ancient_is_nil_nil:
  "(let (r1, f1, s1) = TruncateAncients 5 [] six emptyBucket;
        (a2, f2, s2) = Ancient freezerHashTable 5 f1 s1;
        (h3, f3, s3) = HasAncient freezerHashTable 5 f1 s1
    in (frozen six, r1, frozen f1, a2, h3))
   = (6, None, 5, Inr None, (False, None))"
  by (simp add: run_simps)

text \<open>
  C6, amended. For every target not above the frozen count, after a
  \<^verbatim>\<open>TruncateAncients\<close> that returns no error, \<^verbatim>\<open>Ancients\<close> returns the target, and for
  every kind and every number at or above the target \<^verbatim>\<open>Ancient\<close> returns \<^verbatim>\<open>nil, nil\<close>
  (no bytes, no error) and \<^verbatim>\<open>HasAncient\<close> returns \<^verbatim>\<open>false, nil\<close>, whatever the bucket
  holds by then; neither changes the freezer or calls the bucket.
\<close>

theorem TruncateAncients_then_Ancient:
  assumes "items \<le> frozen f"
    and "TruncateAncients items spare f s = (None, f', s')"
    and "items \<le> m"
  shows "Ancients f' = (items, None) \<and>
         Ancient k m f' s'' = (Inr None, f', s'') \<and>
         HasAncient k m f' s'' = ((False, None), f', s'')"
  using assms
  by (simp add: Ancients_def HasAncient_def TruncateAncients_frozen Ancient_not_frozen)

theorem TruncateAncients_then_Ancient_witness:
  "6 \<le> frozen eightSynced \<and>
   TruncateAncients 6 [] eightSynced eightBucket = (None, eightTruncated, truncatedBucket) \<and>
   (6 :: u64) \<le> 7 \<and>
   Ancients eightTruncated = (6, None) \<and>
   Ancient freezerHeaderTable 7 eightTruncated truncatedBucket
     = (Inr None, eightTruncated, truncatedBucket) \<and>
   HasAncient freezerHeaderTable 7 eightTruncated truncatedBucket
     = ((False, None), eightTruncated, truncatedBucket)"
proof -
  have h1: "6 \<le> frozen eightSynced"
    by (simp add: eightSynced_def run_simps)
  have "fst (TruncateAncients 6 [] eightSynced eightBucket) = None"
    by (simp add: eightSynced_def eightBucket_def run_simps)
  then have h2: "TruncateAncients 6 [] eightSynced eightBucket
      = (None, eightTruncated, truncatedBucket)"
    by (simp add: eightTruncated_def truncatedBucket_def prod_eq_iff)
  have h3: "(6 :: u64) \<le> 7" by simp
  from TruncateAncients_then_Ancient [OF h1 h2 h3, of freezerHeaderTable truncatedBucket] h1 h2 h3
  show ?thesis by simp
qed

text \<open>
  C7. In every state reached by \<^verbatim>\<open>AppendAncient\<close>, \<^verbatim>\<open>Sync\<close> and \<^verbatim>\<open>TruncateAncients\<close>
  the frozen count is to be the number of flushed records plus the length of the
  buffer, the buffer holding the records \<open>frozen - len\<close> up to \<open>frozen\<close>. A
  \<^verbatim>\<open>TruncateAncients\<close> that fails after it has read the group breaks this: eight blocks
  are synced, so the buffer is empty and both groups are in the bucket; truncating to 6
  reads group 1 into the buffer and cuts it to two records, and then the delete request
  fails. The call returns the error with the frozen count still 8, both groups and the
  marker 8 still in the bucket, and the blocks 4 and 5 in the buffer, where
  \<^verbatim>\<open>Ancient\<close> now looks for the numbers 6 and 7: for number 7 it returns the byte 5.
\<close>

theorem TruncateAncients_failure_replaces_buffer:
  "(let (r1, f1, s1) = Sync eight emptyBucket;
        (r2, f2, s2) = TruncateAncients 6 [] f1 (s1\<lparr>faults := [False, True]\<rparr>);
        (a3, f3, s3) = Ancient freezerHashTable 7 f2 s2
    in (r1, frozen f1, cache f1, r2, frozen f2, map Hash (cache f2),
        objects s2 ''blocks/000000001.json'' = objects s1 ''blocks/000000001.json'',
        objects s2 ''index-marker'', a3))
   = (None, 8, [], Some errS3, 8, [[4], [5]], True, Some (Text ''8''), Inr (Some [5]))"
  by (simp add: run_simps)

subsection \<open>Restart and repair\<close>

text \<open>
  C8. After appending records over several groups and a successful \<^verbatim>\<open>Sync\<close>, building
  the freezer again from the index marker and the bucket is to give a freezer that
  serves every record. With eight blocks and groups of four the bucket holds the groups
  0 and 1 and the marker 8; the constructor asks \<^verbatim>\<open>initCache\<close> for the group of number
  8, which is group 2 and does not exist, and returns \<^verbatim>\<open>errOutOfBounds\<close>.
\<close>

theorem restart_after_full_groups_fails:
  "(let (r1, f1, s1) = Sync eight emptyBucket;
        (r2, f2, s2) = newFreezerRemoteS3 4 s1
    in (r1, cache f1, objects s1 ''index-marker'', objects s1 ''blocks/000000002.json'', r2))
   = (None, [], Some (Text ''8''), None, Some errOutOfBounds)"
  by (simp add: run_simps)

text \<open>
  C9. \<^verbatim>\<open>repair\<close> is to reconcile buffer and bucket, not to return success without
  looking at any state. Its body is commented out: for every freezer it returns nil and
  the freezer as it was.
\<close>

theorem repair_is_a_no_op: "repair f = (None, f)"
  by (simp add: repair_def)

subsection \<open>The bounds check of a fetched group\<close>

text \<open>
  C10. When \<^verbatim>\<open>Ancient\<close> fetches a group and the offset of the number is no index of
  the decoded array, it is to return \<^verbatim>\<open>errOutOfBounds\<close>, also for an empty array. For
  an empty array the check \<^verbatim>\<open>i > uint64(len(target)) - 1\<close> compares with the largest
  \<^verbatim>\<open>uint64\<close> and never holds, so the index expression that follows panics. The bucket
  below holds the marker 1 and an empty array as group 0; the constructor accepts it,
  and \<^verbatim>\<open>Ancient\<close> for number 0 ends in the index panic.
\<close>

theorem Ancient_empty_group_panics:
  "(let s = \<lparr>objects = [''index-marker'' \<mapsto> Text ''1'', ''blocks/000000000.json'' \<mapsto> Json []],
             puts = [], faults = []\<rparr>;
        (r1, f1, s1) = newFreezerRemoteS3 4 s;
        (a2, f2, s2) = Ancient freezerHashTable 0 f1 s1
    in (r1, frozen f1, cache f1, a2))
   = (None, 1, [], Inl panicIndexOutOfRange)"
  by (simp add: run_simps)

end
